theory Spec2Isabelle
  imports Main "HOL-Library.Word" "HOL-Library.List_Lexorder"
begin

section \<open>The review service over a document collection\<close>

text \<open>
  The module \<^verbatim>\<open>services/reviews.py\<close> holds one class, \<^verbatim>\<open>ReviewService\<close>, whose
  five methods each make a few calls on a MongoDB collection and translate the outcome
  into a value or an exception. The embedding makes the collection, the logging sink and
  the exceptions explicit: a method takes the state and returns the outcome with the new
  state.
\<close>

subsection \<open>Values, documents and exceptions\<close>

text \<open>
  An ObjectId is a string of bytes, twelve when the driver generates it; identifiers
  are equal when their bytes are, and the collection orders them byte by byte.
\<close>

type_synonym oid = "8 word list"

datatype val = VNull | VStr string | VInt int | VOid oid

text \<open>
  Field names. A review document has the fields \<^verbatim>\<open>film_id\<close> and \<^verbatim>\<open>user_id\<close> and
  the content fields of the data contracts, which carry other names; a flat field mapping
  sent to or read from the collection may carry the key \<^verbatim>\<open>_id\<close> as well.
\<close>

datatype field = Film_id | User_id | Content string

datatype key = Key_id | Key_field field

type_synonym fields = "(field \<times> val) list"

type_synonym mapping = "(key \<times> val) list"

record document =
  doc_id :: oid
  doc_fields :: fields

text \<open>
  Every exception a method can end with. \<open>HTTPException\<close> carries the status code and
  the detail; the others are the exceptions of the libraries, which the service raises
  no further than it catches them.
\<close>

datatype error =
    HTTPException nat string
  | InvalidId string
  | ValueError string
  | ValidationError
  | DuplicateKeyError
  | WriteError
  | OverflowError
  | PyMongoError string

definition INTERNAL_SERVER_ERROR :: nat where
  "INTERNAL_SERVER_ERROR = 500"

definition CONFLICT :: nat where
  "CONFLICT = 409"

definition NOT_FOUND :: nat where
  "NOT_FOUND = 404"

text \<open>The text of an exception, as an f-string prints it.\<close>

fun str_exc :: "error \<Rightarrow> string" where
  "str_exc (HTTPException c d) = d"
| "str_exc (InvalidId s) = s @ '' is not a valid ObjectId''"
| "str_exc (ValueError m) = m"
| "str_exc ValidationError = ''validation error''"
| "str_exc DuplicateKeyError = ''duplicate key error''"
| "str_exc WriteError = ''update would modify the immutable field _id''"
| "str_exc OverflowError = ''MongoDB can only handle up to 8-byte ints''"
| "str_exc (PyMongoError m) = m"

subsection \<open>ObjectId(review_id)\<close>

text \<open>
  \<^verbatim>\<open>ObjectId(s)\<close> of a string: when the string has 24 characters its bytes are
  \<^verbatim>\<open>bytes.fromhex(s)\<close>, and \<^verbatim>\<open>InvalidId\<close> is raised when the string has another
  length or \<^verbatim>\<open>fromhex\<close> refuses it. \<^verbatim>\<open>fromhex\<close> reads two hexadecimal digits
  for a byte and skips ASCII whitespace before a byte and at the end, so a string of 24
  characters with whitespace in it is accepted and gives fewer than twelve bytes.
\<close>

definition hex_digit :: "char \<Rightarrow> nat option" where
  "hex_digit c =
     (let n = (of_char c :: nat)
      in if 48 \<le> n \<and> n \<le> 57 then Some (n - 48)
         else if 97 \<le> n \<and> n \<le> 102 then Some (n - 87)
         else if 65 \<le> n \<and> n \<le> 70 then Some (n - 55)
         else None)"

definition is_space :: "char \<Rightarrow> bool" where
  "is_space c = (let n = (of_char c :: nat) in n = 32 \<or> (9 \<le> n \<and> n \<le> 13))"

fun fromhex :: "string \<Rightarrow> 8 word list option" where
  "fromhex [] = Some []"
| "fromhex [c] = (if is_space c then Some [] else None)"
| "fromhex (c # c' # cs) =
     (if is_space c then fromhex (c' # cs)
      else (case hex_digit c of
              None \<Rightarrow> None
            | Some hi \<Rightarrow>
                (case hex_digit c' of
                   None \<Rightarrow> None
                 | Some lo \<Rightarrow> map_option (\<lambda>bs. word_of_nat (16 * hi + lo) # bs) (fromhex cs))))"

definition ObjectId :: "string \<Rightarrow> error + oid" where
  "ObjectId s =
     (if length s = 24 then
        (case fromhex s of
           Some bs \<Rightarrow> Inr bs
         | None \<Rightarrow> Inl (InvalidId s))
      else Inl (InvalidId s))"

subsection \<open>The collection\<close>

text \<open>
  The collection is the list of its documents in natural (insertion) order. The raw
  document a read returns is the flat mapping with \<^verbatim>\<open>_id\<close> first. A filter is a
  mapping; a document matches when it has every pair of the filter.

  The database layer may fail at any call. Each call takes the exception the layer
  raises there, if any; a method numbers its calls from 0, and its environment gives
  the exception of each.
\<close>

type_synonym env = "nat \<Rightarrow> error option"

definition no_fault :: env where
  "no_fault n = None"

definition raw :: "document \<Rightarrow> mapping" where
  "raw d = (Key_id, VOid (doc_id d)) # map (\<lambda>(f, v). (Key_field f, v)) (doc_fields d)"

definition matches :: "mapping \<Rightarrow> document \<Rightarrow> bool" where
  "matches flt d = list_all (\<lambda>(k, v). map_of (raw d) k = Some v) flt"

definition find_one :: "error option \<Rightarrow> document list \<Rightarrow> mapping \<Rightarrow> error + mapping option" where
  "find_one fault coll flt =
     (case fault of
        Some exc \<Rightarrow> Inl exc
      | None \<Rightarrow> Inr (map_option raw (find (matches flt) coll)))"

text \<open>
  \<^verbatim>\<open>insert_one\<close> of a mapping without \<^verbatim>\<open>_id\<close>: the driver generates the
  identifier (\<open>new_id\<close>), and the unique index on \<^verbatim>\<open>_id\<close> refuses one that is taken.
\<close>

definition insert_one ::
  "error option \<Rightarrow> oid \<Rightarrow> document list \<Rightarrow> fields \<Rightarrow> error + (document list \<times> oid)" where
  "insert_one fault new_id coll fs =
     (case fault of
        Some exc \<Rightarrow> Inl exc
      | None \<Rightarrow>
          if new_id \<in> set (map doc_id coll) then Inl DuplicateKeyError
          else Inr (coll @ [\<lparr>doc_id = new_id, doc_fields = fs\<rparr>], new_id))"

text \<open>
  \<^verbatim>\<open>$set\<close>: a named field takes the new value in place, or is appended when the
  document does not have it; \<^verbatim>\<open>_id\<close> is immutable, so naming it with another value
  is a write error and naming it with its own value changes nothing.
\<close>

fun set_field :: "field \<Rightarrow> val \<Rightarrow> fields \<Rightarrow> fields" where
  "set_field f v [] = [(f, v)]"
| "set_field f v ((g, w) # fs) =
     (if g = f then (f, v) # fs else (g, w) # set_field f v fs)"

fun set_key :: "document \<Rightarrow> key \<times> val \<Rightarrow> error + document" where
  "set_key d (Key_id, v) = (if v = VOid (doc_id d) then Inr d else Inl WriteError)"
| "set_key d (Key_field f, v) = Inr (d\<lparr>doc_fields := set_field f v (doc_fields d)\<rparr>)"

fun apply_set :: "document \<Rightarrow> mapping \<Rightarrow> error + document" where
  "apply_set d [] = Inr d"
| "apply_set d (kv # kvs) =
     (case set_key d kv of
        Inl exc \<Rightarrow> Inl exc
      | Inr d' \<Rightarrow> apply_set d' kvs)"

text \<open>
  \<^verbatim>\<open>update_one\<close> changes the first document that matches and reports
  \<^verbatim>\<open>modified_count\<close>: 1 when the document changed, 0 when none matched or the
  update left the document as it was.
\<close>

fun update_first :: "mapping \<Rightarrow> mapping \<Rightarrow> document list \<Rightarrow> error + (document list \<times> nat)" where
  "update_first flt upd [] = Inr ([], 0)"
| "update_first flt upd (d # ds) =
     (if matches flt d then
        (case apply_set d upd of
           Inl exc \<Rightarrow> Inl exc
         | Inr d' \<Rightarrow> Inr (d' # ds, if d' = d then 0 else 1))
      else
        (case update_first flt upd ds of
           Inl exc \<Rightarrow> Inl exc
         | Inr (ds', n) \<Rightarrow> Inr (d # ds', n)))"

definition update_one ::
  "error option \<Rightarrow> document list \<Rightarrow> mapping \<Rightarrow> mapping \<Rightarrow> error + (document list \<times> nat)" where
  "update_one fault coll flt upd =
     (case fault of
        Some exc \<Rightarrow> Inl exc
      | None \<Rightarrow> update_first flt upd coll)"

text \<open>\<^verbatim>\<open>delete_one\<close> deletes the first document that matches and reports \<^verbatim>\<open>deleted_count\<close>.\<close>

fun delete_first :: "mapping \<Rightarrow> document list \<Rightarrow> document list \<times> nat" where
  "delete_first flt [] = ([], 0)"
| "delete_first flt (d # ds) =
     (if matches flt d then (ds, 1)
      else (case delete_first flt ds of (ds', n) \<Rightarrow> (d # ds', n)))"

definition delete_one ::
  "error option \<Rightarrow> document list \<Rightarrow> mapping \<Rightarrow> error + (document list \<times> nat)" where
  "delete_one fault coll flt =
     (case fault of
        Some exc \<Rightarrow> Inl exc
      | None \<Rightarrow> Inr (delete_first flt coll))"

text \<open>
  A cursor is built lazily: \<^verbatim>\<open>find()\<close>, \<^verbatim>\<open>sort\<close>, \<^verbatim>\<open>skip\<close> and \<^verbatim>\<open>limit\<close> only
  record the query, and \<^verbatim>\<open>skip\<close> refuses a negative number. \<^verbatim>\<open>to_list(length)\<close>
  refuses a negative length, then sends the query: the skip and the absolute value of
  the limit travel as BSON integers of at most 64 bits, and the driver raises
  \<^verbatim>\<open>OverflowError\<close> on a larger one. In the answer a limit of 0 is no limit and a
  negative limit counts as its absolute value.
\<close>

record cursor =
  c_sorted :: bool
  c_skip :: nat
  c_limit :: int

definition find_all :: "error option \<Rightarrow> error + cursor" where
  "find_all fault =
     (case fault of
        Some exc \<Rightarrow> Inl exc
      | None \<Rightarrow> Inr \<lparr>c_sorted = False, c_skip = 0, c_limit = 0\<rparr>)"

definition sort_id :: "cursor \<Rightarrow> cursor" where
  "sort_id c = c\<lparr>c_sorted := True\<rparr>"

definition skip :: "cursor \<Rightarrow> int \<Rightarrow> error + cursor" where
  "skip c n = (if n < 0 then Inl (ValueError ''skip must be >= 0'') else Inr (c\<lparr>c_skip := nat n\<rparr>))"

definition limit :: "cursor \<Rightarrow> int \<Rightarrow> cursor" where
  "limit c n = c\<lparr>c_limit := n\<rparr>"

definition run_cursor :: "cursor \<Rightarrow> document list \<Rightarrow> document list" where
  "run_cursor c coll =
     (let ordered = (if c_sorted c then sort_key doc_id coll else coll);
          skipped = drop (c_skip c) ordered
      in if c_limit c = 0 then skipped else take (nat \<bar>c_limit c\<bar>) skipped)"

definition fits_int64 :: "int \<Rightarrow> bool" where
  "fits_int64 n \<longleftrightarrow> - (2 ^ 63) \<le> n \<and> n < 2 ^ 63"

definition to_list :: "error option \<Rightarrow> document list \<Rightarrow> cursor \<Rightarrow> int \<Rightarrow> error + mapping list" where
  "to_list fault coll c len =
     (if len < 0 then Inl (ValueError ''length must be non-negative'')
      else (case fault of
              Some exc \<Rightarrow> Inl exc
            | None \<Rightarrow>
                if \<not> fits_int64 (int (c_skip c)) \<or> \<not> fits_int64 \<bar>c_limit c\<bar>
                then Inl OverflowError
                else Inr (map raw (take (nat len) (run_cursor c coll)))))"

subsection \<open>The data contracts\<close>

text \<open>
  Modelled from the spec: the classes \<^verbatim>\<open>ReviewIn\<close>, \<^verbatim>\<open>Review\<close> and
  \<^verbatim>\<open>ReviewFromDB\<close> are declared in \<^verbatim>\<open>src.api.v1.schemas\<close>, which is not part of
  the module. The spec gives \<^verbatim>\<open>ReviewIn{film_id, ...content}\<close> and
  \<^verbatim>\<open>Review{film_id, user_id, ...content}\<close>; a \<^verbatim>\<open>ReviewFromDB\<close> has the fields of a
  Review and the identifier, which the store assigns on insert, so the mapping that
  \<^verbatim>\<open>ReviewFromDB(**review.model_dump()).model_dump()\<close> hands to the collection holds
  the fields of the Review and no \<^verbatim>\<open>_id\<close>.
\<close>

record ReviewIn =
  film_id :: string
  content :: "(string \<times> val) list"

record Review = ReviewIn +
  user_id :: string

text \<open>
  Modelled from the spec: \<^verbatim>\<open>Review(**data.model_dump(), user_id=user_id)\<close>, the
  fields of the input and the user.
\<close>

definition mk_Review :: "ReviewIn \<Rightarrow> string \<Rightarrow> Review" where
  "mk_Review data uid = \<lparr>film_id = film_id data, content = content data, user_id = uid\<rparr>"

text \<open>
  Modelled from the spec: \<^verbatim>\<open>review.model_dump()\<close>, the flat mapping of the fields of
  a Review.
\<close>

definition model_dump :: "Review \<Rightarrow> fields" where
  "model_dump r =
     (Film_id, VStr (film_id r)) # (User_id, VStr (user_id r)) #
     map (\<lambda>(k, v). (Content k, v)) (content r)"

text \<open>
  Modelled from the spec: \<^verbatim>\<open>ReviewFromDB(**fs).model_dump()\<close> of the fields of a
  Review, the mapping handed to \<^verbatim>\<open>insert_one\<close>: the same fields, the identifier
  being assigned by the store.
\<close>

definition ReviewFromDB_model_dump :: "fields \<Rightarrow> fields" where
  "ReviewFromDB_model_dump fs = fs"

text \<open>
  Modelled from the spec: a \<^verbatim>\<open>ReviewFromDB\<close> as \<open>update\<close> receives it,
  \<^verbatim>\<open>ReviewFromDB{id, film_id, user_id, ...content}\<close>, the identifier in its canonical
  string form.
\<close>

record ReviewFromDB = Review +
  id_str :: string

text \<open>
  Modelled from the spec: \<^verbatim>\<open>jsonable_encoder(data)\<close>, the flat field mapping of a
  \<^verbatim>\<open>ReviewFromDB\<close>. Every value is one JSON has, so the identifier is a string. The
  key it stands under is fixed by the class, which is not part of the module, and is
  the parameter \<open>id_key\<close>.
\<close>

definition jsonable_encoder :: "key \<Rightarrow> ReviewFromDB \<Rightarrow> mapping" where
  "jsonable_encoder id_key data =
     (id_key, VStr (id_str data)) #
     (Key_field Film_id, VStr (film_id data)) # (Key_field User_id, VStr (user_id data)) #
     map (\<lambda>(k, v). (Key_field (Content k), v)) (content data)"

subsection \<open>The service\<close>

record state =
  reviews :: "document list"
  logged :: "string list"

definition ugc_logger_error :: "string \<Rightarrow> state \<Rightarrow> state" where
  "ugc_logger_error msg st = st\<lparr>logged := logged st @ [msg]\<rparr>"

text \<open>The truth value of what \<^verbatim>\<open>find_one\<close> returns: \<^verbatim>\<open>None\<close> and the empty mapping are false.\<close>

definition truthy :: "mapping option \<Rightarrow> bool" where
  "truthy r = (case r of None \<Rightarrow> False | Some m \<Rightarrow> m \<noteq> [])"

text \<open>
  \<^verbatim>\<open>get\<close>. The \<^verbatim>\<open>try\<close> holds the construction of the cursor (call 0); the fetch
  (call 1) and the construction of the results stand after it. The constructor
  \<^verbatim>\<open>ReviewFromDB(**review)\<close> is declared outside the module and is the parameter
  \<open>mk\<close>, \<open>None\<close> when it refuses the document.
\<close>

definition build_cursor :: "error option \<Rightarrow> int \<Rightarrow> int \<Rightarrow> error + cursor" where
  "build_cursor fault page_number per_page =
     (case find_all fault of
        Inl exc \<Rightarrow> Inl exc
      | Inr c \<Rightarrow>
          (case skip (sort_id c) ((page_number - 1) * per_page) of
             Inl exc \<Rightarrow> Inl exc
           | Inr c' \<Rightarrow> Inr (limit c' per_page)))"

definition get ::
  "(mapping \<Rightarrow> 'r option) \<Rightarrow> env \<Rightarrow> state \<Rightarrow> int \<Rightarrow> int \<Rightarrow> (error + 'r list) \<times> state" where
  "get mk env st page_number per_page =
     (case build_cursor (env 0) page_number per_page of
        Inl exc \<Rightarrow>
          (Inl (HTTPException INTERNAL_SERVER_ERROR ''Error while getting reviews''),
           ugc_logger_error (''Error while getting reviews: '' @ str_exc exc) st)
      | Inr reviews_cursor \<Rightarrow>
          (case to_list (env 1) (reviews st) reviews_cursor per_page of
             Inl exc \<Rightarrow> (Inl exc, st)
           | Inr reviews_list \<Rightarrow>
               (case those (map mk reviews_list) of
                  None \<Rightarrow> (Inl ValidationError, st)
                | Some reviews_from_db \<Rightarrow> (Inr reviews_from_db, st))))"

definition check_if_review_exist ::
  "error option \<Rightarrow> document list \<Rightarrow> string \<Rightarrow> string \<Rightarrow> error + mapping option" where
  "check_if_review_exist fault coll movie_id uid =
     find_one fault coll [(Key_field Film_id, VStr movie_id), (Key_field User_id, VStr uid)]"

text \<open>
  \<^verbatim>\<open>add\<close>: the existence check is call 0, the insert call 1 (the only one inside the
  \<^verbatim>\<open>try\<close>), the read of the new document call 2.
\<close>

definition add ::
  "env \<Rightarrow> oid \<Rightarrow> state \<Rightarrow> string \<Rightarrow> ReviewIn \<Rightarrow> (error + mapping option) \<times> state" where
  "add env new_id st uid data =
     (let review = mk_Review data uid;
          fid = film_id review
      in case check_if_review_exist (env 0) (reviews st) fid uid of
           Inl exc \<Rightarrow> (Inl exc, st)
         | Inr is_review_exist \<Rightarrow>
             if truthy is_review_exist then
               (Inl (HTTPException CONFLICT
                  (''Review by user '' @ uid @ '' for movie '' @ fid @ '' already exist'')), st)
             else
               (let review_data_for_db = ReviewFromDB_model_dump (model_dump review)
                in case insert_one (env 1) new_id (reviews st) review_data_for_db of
                     Inl exc \<Rightarrow>
                       (Inl (HTTPException INTERNAL_SERVER_ERROR
                          (''Error while adding review by '' @ uid @ '' for movie '' @ fid)),
                        ugc_logger_error
                          (''Error while adding review by '' @ uid @ '' for movie '' @ fid
                             @ '': '' @ str_exc exc) st)
                   | Inr (coll', inserted_id) \<Rightarrow>
                       (case find_one (env 2) coll' [(Key_id, VOid inserted_id)] of
                          Inl exc \<Rightarrow> (Inl exc, st\<lparr>reviews := coll'\<rparr>)
                        | Inr new_doc \<Rightarrow> (Inr new_doc, st\<lparr>reviews := coll'\<rparr>))))"

text \<open>
  \<^verbatim>\<open>update\<close>: the datum is the flat mapping \<^verbatim>\<open>jsonable_encoder(data)\<close> gives, copied
  key by key. The lookup is call 0, the update call 1, the read of the result call 2.
  When \<^verbatim>\<open>modified_count\<close> is not 1 the method falls off its end and returns \<^verbatim>\<open>None\<close>.
\<close>

definition update ::
  "env \<Rightarrow> state \<Rightarrow> string \<Rightarrow> mapping \<Rightarrow> (error + mapping option) \<times> state" where
  "update env st review_id review_data =
     (let prep_review_data = map (\<lambda>(k, v). (k, v)) review_data
      in case ObjectId review_id of
           Inl exc \<Rightarrow> (Inl exc, st)
         | Inr i \<Rightarrow>
             (case find_one (env 0) (reviews st) [(Key_id, VOid i)] of
                Inl exc \<Rightarrow> (Inl exc, st)
              | Inr is_review_exist \<Rightarrow>
                  if \<not> truthy is_review_exist then
                    (Inl (HTTPException NOT_FOUND
                       (''Not found review '' @ review_id @ '' for update'')), st)
                  else
                    (case update_one (env 1) (reviews st) [(Key_id, VOid i)] prep_review_data of
                       Inl exc \<Rightarrow> (Inl exc, st)
                     | Inr (coll', modified_count) \<Rightarrow>
                         if modified_count = 1 then
                           (case find_one (env 2) coll' [(Key_id, VOid i)] of
                              Inl exc \<Rightarrow> (Inl exc, st\<lparr>reviews := coll'\<rparr>)
                            | Inr updated \<Rightarrow> (Inr updated, st\<lparr>reviews := coll'\<rparr>))
                         else (Inr None, st\<lparr>reviews := coll'\<rparr>))))"

text \<open>\<^verbatim>\<open>remove\<close>: one call, the delete.\<close>

definition remove :: "env \<Rightarrow> state \<Rightarrow> string \<Rightarrow> (error + unit) \<times> state" where
  "remove env st review_id =
     (case ObjectId review_id of
        Inl exc \<Rightarrow> (Inl exc, st)
      | Inr i \<Rightarrow>
          (case delete_one (env 0) (reviews st) [(Key_id, VOid i)] of
             Inl exc \<Rightarrow> (Inl exc, st)
           | Inr (coll', deleted_count) \<Rightarrow>
               if deleted_count \<noteq> 1 then
                 (Inl (HTTPException NOT_FOUND
                    (''Not found review '' @ review_id @ '' for deletion'')),
                  st\<lparr>reviews := coll'\<rparr>)
               else (Inr (), st\<lparr>reviews := coll'\<rparr>)))"

text \<open>Whether an outcome is the failure with status 404.\<close>

definition is_not_found :: "error + 'a \<Rightarrow> bool" where
  "is_not_found r = (case r of Inl (HTTPException c d) \<Rightarrow> c = NOT_FOUND | _ \<Rightarrow> False)"

subsection \<open>Example data\<close>

definition oid_of :: "8 word \<Rightarrow> oid" where
  "oid_of b = [0, 0, 0, 0, 0, 0, 0, 0, 0, 0, 0, b]"

definition doc_a :: document where
  "doc_a = \<lparr>doc_id = oid_of 5, doc_fields =
     [(Film_id, VStr ''f1''), (User_id, VStr ''u1''), (Content ''text'', VStr ''great'')]\<rparr>"

definition doc_b :: document where
  "doc_b = \<lparr>doc_id = oid_of 2, doc_fields =
     [(Film_id, VStr ''f2''), (User_id, VStr ''u1''), (Content ''text'', VStr ''dull'')]\<rparr>"

definition doc_c :: document where
  "doc_c = \<lparr>doc_id = oid_of 9, doc_fields =
     [(Film_id, VStr ''f1''), (User_id, VStr ''u2''), (Content ''text'', VStr ''fine'')]\<rparr>"

definition doc_d :: document where
  "doc_d = \<lparr>doc_id = oid_of 11, doc_fields =
     [(Film_id, VStr ''f1''), (User_id, VStr ''u3''), (Content ''text'', VStr ''great'')]\<rparr>"

definition doc_a_with_id :: document where
  "doc_a_with_id = \<lparr>doc_id = oid_of 5, doc_fields =
     [(Film_id, VStr ''f1''), (User_id, VStr ''u1''), (Content ''text'', VStr ''great''),
      (Content ''id'', VStr ''000000000000000000000005'')]\<rparr>"

definition review_in :: ReviewIn where
  "review_in = \<lparr>film_id = ''f1'', content = [(''text'', VStr ''great'')]\<rparr>"

definition review_a :: ReviewFromDB where
  "review_a = \<lparr>film_id = ''f1'', content = [(''text'', VStr ''great'')], user_id = ''u1'',
     id_str = ''000000000000000000000005''\<rparr>"

definition st_empty :: state where
  "st_empty = \<lparr>reviews = [], logged = []\<rparr>"

definition st_abc :: state where
  "st_abc = \<lparr>reviews = [doc_a, doc_b, doc_c], logged = []\<rparr>"

definition st_abcd :: state where
  "st_abcd = \<lparr>reviews = [doc_a, doc_b, doc_c, doc_d], logged = []\<rparr>"

definition st_abc_with_id :: state where
  "st_abc_with_id = \<lparr>reviews = [doc_a_with_id, doc_b, doc_c], logged = []\<rparr>"

section \<open>Properties\<close>

lemmas example_defs =
  st_abc_def st_abcd_def doc_a_def doc_b_def doc_c_def doc_d_def review_in_def

lemma oid_of_eq [simp]: "oid_of a = oid_of b \<longleftrightarrow> a = b"
  by (simp add: oid_of_def)

lemma oid_of_le [simp]: "oid_of a \<le> oid_of b \<longleftrightarrow> a \<le> b"
  by (auto simp: oid_of_def)

lemma oid_of_less [simp]: "oid_of a < oid_of b \<longleftrightarrow> a < b"
  by (auto simp: oid_of_def)

subsection \<open>Reading documents\<close>

lemma map_of_raw_id: "map_of (raw d) Key_id = Some (VOid (doc_id d))"
  by (simp add: raw_def)

lemma map_of_fields_key:
  "map_of (map (\<lambda>(f, v). (Key_field f, v)) fs) (Key_field g) = map_of fs g"
  by (induction fs) auto

lemma map_of_raw_field: "map_of (raw d) (Key_field f) = map_of (doc_fields d) f"
  by (simp add: raw_def map_of_fields_key)

lemma matches_id: "matches [(Key_id, VOid i)] d \<longleftrightarrow> doc_id d = i"
  by (auto simp: matches_def map_of_raw_id)

lemma matches_pair:
  "matches [(Key_field Film_id, VStr f), (Key_field User_id, VStr u)] d \<longleftrightarrow>
     map_of (doc_fields d) Film_id = Some (VStr f) \<and>
     map_of (doc_fields d) User_id = Some (VStr u)"
  by (simp add: matches_def map_of_raw_field)

lemma truthy_raw: "truthy (map_option raw x) \<longleftrightarrow> x \<noteq> None"
  by (cases x) (simp_all add: truthy_def raw_def)

lemma truthy_Some_raw: "truthy (Some (raw d))"
  by (simp add: truthy_def raw_def)

lemma find_id_None: "find (matches [(Key_id, VOid i)]) coll = None \<longleftrightarrow> i \<notin> doc_id ` set coll"
  by (auto simp: find_None_iff matches_id)

lemma find_append_None: "find P xs = None \<Longrightarrow> find P (xs @ ys) = find P ys"
  by (induction xs) (auto split: if_splits)

lemma find_new_id:
  "i \<notin> doc_id ` set coll \<Longrightarrow>
   find (matches [(Key_id, VOid i)]) (coll @ [\<lparr>doc_id = i, doc_fields = fs\<rparr>])
     = Some \<lparr>doc_id = i, doc_fields = fs\<rparr>"
  by (simp add: find_append_None find_id_None matches_id)

subsection \<open>Identifiers\<close>

lemma ObjectId_cases: "(\<exists>i. ObjectId s = Inr i) \<or> ObjectId s = Inl (InvalidId s)"
  by (auto simp: ObjectId_def split: if_splits option.splits)

lemma oid_5: "ObjectId ''000000000000000000000005'' = Inr (oid_of 5)"
  by (simp add: ObjectId_def hex_digit_def is_space_def oid_of_def)

lemma oid_f: "ObjectId ''00000000000000000000000f'' = Inr (oid_of 15)"
  by (simp add: ObjectId_def hex_digit_def is_space_def oid_of_def)

text \<open>Whitespace in a string of 24 characters: accepted, with fewer bytes.\<close>

lemma oid_short: "ObjectId ''0000000000000000000005  '' = Inr [0, 0, 0, 0, 0, 0, 0, 0, 0, 0, 5]"
  by (simp add: ObjectId_def hex_digit_def is_space_def)

subsection \<open>Paging\<close>

lemma those_map_total:
  "\<forall>x\<in>set xs. f x \<noteq> None \<Longrightarrow> \<exists>ys. those (map f xs) = Some ys \<and> map Some ys = map f xs"
  by (induction xs) auto

lemma those_length: "those xs = Some ys \<Longrightarrow> length ys = length xs"
  by (induction xs arbitrary: ys) (auto split: option.splits)

lemma sorted_page: "sorted (map doc_id (take n (drop k (sort_key doc_id coll))))"
proof -
  have "sorted (map doc_id (sort_key doc_id coll))"
    by (rule sorted_sort_key)
  then have "sorted (take n (drop k (map doc_id (sort_key doc_id coll))))"
    by (simp add: sorted_wrt_take sorted_wrt_drop)
  then show ?thesis
    by (simp add: take_map drop_map)
qed

text \<open>
  C2, as the claim has it, fails on a page so far out that the skip does not fit 64
  bits: for page 2^63 + 1 of pages of one document the driver raises
  \<^verbatim>\<open>OverflowError\<close> when it sends the query, and \<open>get\<close> ends with it.
\<close>

theorem get_page_overflow:
  "get Some no_fault st_abc 9223372036854775809 1 = (Inl OverflowError, st_abc)"
  by (simp add: get_def build_cursor_def find_all_def skip_def sort_id_def limit_def
      to_list_def fits_int64_def no_fault_def)

text \<open>
  C2, amended. For a page number of at least 1 and a positive page size, both the
  number of skipped documents \<open>(page_number - 1) * per_page\<close> and the page size below
  2^63, when the database layer raises nothing and the constructor accepts the
  documents of the page, \<open>get\<close> returns the records of the page and leaves the state
  as it was: the page is what remains of the documents sorted by identifier after the
  first \<open>(page_number - 1) * per_page\<close> are dropped, cut at \<open>per_page\<close>; it has at
  most \<open>per_page\<close> records, in non-decreasing order of identifier, and none when the
  collection has no more than the skipped number of documents.
\<close>

theorem get_page:
  assumes "1 \<le> page_number" and "0 < per_page"
    and "(page_number - 1) * per_page < 2 ^ 63" and "per_page < 2 ^ 63"
    and "env 0 = None" and "env 1 = None"
    and "\<forall>d \<in> set (take (nat per_page) (drop (nat ((page_number - 1) * per_page))
            (sort_key doc_id (reviews st)))). mk (raw d) \<noteq> None"
  shows "\<exists>rs. get mk env st page_number per_page = (Inr rs, st)
           \<and> length rs \<le> nat per_page
           \<and> map Some rs = map (\<lambda>d. mk (raw d))
                 (take (nat per_page) (drop (nat ((page_number - 1) * per_page))
                    (sort_key doc_id (reviews st))))
           \<and> sorted (map doc_id
                 (take (nat per_page) (drop (nat ((page_number - 1) * per_page))
                    (sort_key doc_id (reviews st)))))
           \<and> (int (length (reviews st)) \<le> (page_number - 1) * per_page \<longrightarrow> rs = [])"
proof -
  let ?k = "nat ((page_number - 1) * per_page)"
  let ?page = "take (nat per_page) (drop ?k (sort_key doc_id (reviews st)))"
  from assms(1,2) have nonneg: "0 \<le> (page_number - 1) * per_page"
    by simp
  from assms(7) obtain rs
    where rs: "those (map (\<lambda>d. mk (raw d)) ?page) = Some rs"
      "map Some rs = map (\<lambda>d. mk (raw d)) ?page"
    using those_map_total [of ?page "\<lambda>d. mk (raw d)"] by blast
  have cur: "build_cursor (env 0) page_number per_page
               = Inr \<lparr>c_sorted = True, c_skip = ?k, c_limit = per_page\<rparr>"
    using nonneg assms(5)
    by (simp add: build_cursor_def find_all_def skip_def sort_id_def limit_def)
  have fits: "fits_int64 (int ?k)" "fits_int64 \<bar>per_page\<bar>"
    using nonneg assms(2,3,4) by (simp_all add: fits_int64_def)
  have run: "to_list (env 1) (reviews st)
               \<lparr>c_sorted = True, c_skip = ?k, c_limit = per_page\<rparr> per_page
             = Inr (map raw ?page)"
    using assms(2,6) fits by (simp add: to_list_def run_cursor_def)
  have g: "get mk env st page_number per_page = (Inr rs, st)"
    using rs(1) run by (simp add: get_def cur comp_def)
  have len: "length rs \<le> nat per_page"
    using those_length [OF rs(1)] by simp
  have empty: "int (length (reviews st)) \<le> (page_number - 1) * per_page \<longrightarrow> rs = []"
  proof
    assume "int (length (reviews st)) \<le> (page_number - 1) * per_page"
    then have "length (sort_key doc_id (reviews st)) \<le> ?k"
      by simp
    then have "?page = []"
      by simp
    with rs(2) show "rs = []"
      by simp
  qed
  from g len rs(2) sorted_page empty show ?thesis
    by blast
qed

theorem get_page_witness:
  "get Some no_fault st_abc 1 2 = (Inr [raw doc_b, raw doc_a], st_abc)
   \<and> get Some no_fault st_abc 3 2 = (Inr [], st_abc)"
  using get_page [of 1 2 no_fault st_abc Some] get_page [of 3 2 no_fault st_abc Some]
  by (auto simp: no_fault_def st_abc_def doc_a_def doc_b_def doc_c_def map_eq_Cons_conv)

subsection \<open>Faults of the database layer\<close>

text \<open>What the \<^verbatim>\<open>try\<close> of \<open>get\<close> does catch: an exception while the cursor is built.\<close>

lemma get_cursor_fault:
  "env 0 = Some exc \<Longrightarrow>
   get mk env st page_number per_page =
     (Inl (HTTPException 500 ''Error while getting reviews''),
      st\<lparr>logged := logged st @ [''Error while getting reviews: '' @ str_exc exc]\<rparr>)"
  by (simp add: get_def build_cursor_def find_all_def ugc_logger_error_def
      INTERNAL_SERVER_ERROR_def)

text \<open>The same holds of the insert in \<open>add\<close>, which stands inside its \<^verbatim>\<open>try\<close>.\<close>

lemma add_insert_fault:
  assumes "env 0 = None" and "env 1 = Some exc"
    and "find (matches [(Key_field Film_id, VStr (film_id data)), (Key_field User_id, VStr uid)])
           (reviews st) = None"
  shows "add env new_id st uid data =
     (Inl (HTTPException 500
        (''Error while adding review by '' @ uid @ '' for movie '' @ film_id data)),
      st\<lparr>logged := logged st @
        [''Error while adding review by '' @ uid @ '' for movie '' @ film_id data
           @ '': '' @ str_exc exc]\<rparr>)"
  using assms
  by (simp add: add_def check_if_review_exist_def find_one_def insert_one_def mk_Review_def
      truthy_def ugc_logger_error_def INTERNAL_SERVER_ERROR_def Let_def)

text \<open>
  C3. A fault of the awaited fetch is outside the \<^verbatim>\<open>try\<close>: with the cursor built
  and the fetch failing with a connection error, \<open>get\<close> ends with that error itself,
  not with the status 500, and the logging sink receives nothing.
\<close>

theorem get_fetch_fault_unhandled:
  "get Some (no_fault(1 := Some (PyMongoError ''connection lost''))) st_empty 1 50
   = (Inl (PyMongoError ''connection lost''), st_empty)"
  by (simp add: get_def build_cursor_def find_all_def skip_def sort_id_def limit_def
      to_list_def no_fault_def st_empty_def)

text \<open>
  C9. When the existence check of \<open>add\<close> fails with a fault of the database layer, the
  call ends with that very fault, and the state is as before: nothing is logged, nothing
  is stored, and no status 500 stands in for the fault.
\<close>

theorem add_existence_check_fault_propagates:
  "env 0 = Some exc \<Longrightarrow> add env new_id st uid data = (Inl exc, st)"
  by (simp add: add_def check_if_review_exist_def find_one_def)

theorem add_existence_check_fault_propagates_witness:
  "add (no_fault(0 := Some (PyMongoError ''connection refused''))) (oid_of 7) st_abc ''u3'' review_in
   = (Inl (PyMongoError ''connection refused''), st_abc)"
  using add_existence_check_fault_propagates
    [of "no_fault(0 := Some (PyMongoError ''connection refused''))"
        "PyMongoError ''connection refused''"]
  by simp

subsection \<open>Adding a review\<close>

lemma model_dump_pair:
  "map_of (model_dump (mk_Review data uid)) Film_id = Some (VStr (film_id data))"
  "map_of (model_dump (mk_Review data uid)) User_id = Some (VStr uid)"
  by (simp_all add: model_dump_def mk_Review_def)

text \<open>What a successful \<open>add\<close> tells about the call: every branch but one ends in \<open>Inl\<close>.\<close>

lemma add_success:
  assumes "add env new_id st uid data = (Inr r, st')"
  shows "find (matches [(Key_field Film_id, VStr (film_id data)), (Key_field User_id, VStr uid)])
           (reviews st) = None
         \<and> new_id \<notin> doc_id ` set (reviews st)
         \<and> st' = st\<lparr>reviews := reviews st @
               [\<lparr>doc_id = new_id, doc_fields = model_dump (mk_Review data uid)\<rparr>]\<rparr>
         \<and> r = Some (raw \<lparr>doc_id = new_id, doc_fields = model_dump (mk_Review data uid)\<rparr>)"
proof -
  have fid: "film_id (mk_Review data uid) = film_id data"
    by (simp add: mk_Review_def)
  from assms show ?thesis
    unfolding add_def check_if_review_exist_def find_one_def insert_one_def Let_def fid
      ReviewFromDB_model_dump_def
    by (auto simp: truthy_raw find_new_id split: option.splits if_splits sum.splits)
qed

lemma add_example:
  "add no_fault (oid_of 11) st_abc ''u3'' review_in = (Inr (Some (raw doc_d)), st_abcd)"
  by (simp add: add_def check_if_review_exist_def find_one_def insert_one_def no_fault_def
      example_defs mk_Review_def model_dump_def ReviewFromDB_model_dump_def matches_def
      raw_def truthy_def)

text \<open>
  C1. When \<open>add\<close> has succeeded for a user and a film, a second \<open>add\<close> by the same
  user for the same film, whose existence check the database layer answers, fails with
  status 409 and a detail naming the user and the film; it leaves the state as the
  first call left it, and the collection then holds exactly one document of that pair.
  This holds of every state the first call starts from.
\<close>

theorem add_twice_conflict:
  assumes first: "add env1 id1 st uid data = (Inr r1, st1)"
    and same: "film_id data2 = film_id data"
    and nofault: "env2 0 = None"
  shows "add env2 id2 st1 uid data2 =
           (Inl (HTTPException 409
              (''Review by user '' @ uid @ '' for movie '' @ film_id data @ '' already exist'')),
            st1)
         \<and> length (filter
              (matches [(Key_field Film_id, VStr (film_id data)), (Key_field User_id, VStr uid)])
              (reviews st1)) = 1"
proof -
  let ?flt = "[(Key_field Film_id, VStr (film_id data)), (Key_field User_id, VStr uid)]"
  let ?new = "\<lparr>doc_id = id1, doc_fields = model_dump (mk_Review data uid)\<rparr>"
  from add_success [OF first]
  have none: "find (matches ?flt) (reviews st) = None"
    and st1: "reviews st1 = reviews st @ [?new]"
    by simp_all
  have new: "matches ?flt ?new"
    by (simp add: matches_pair model_dump_pair)
  from none have nomatch: "filter (matches ?flt) (reviews st) = []"
    by (simp add: find_None_iff filter_empty_conv)
  have count: "length (filter (matches ?flt) (reviews st1)) = 1"
    by (simp add: st1 nomatch new)
  have found: "find (matches ?flt) (reviews st1) = Some ?new"
    by (simp add: st1 find_append_None [OF none] new)
  have fid: "film_id (mk_Review data2 uid) = film_id data"
    by (simp add: mk_Review_def same)
  have "add env2 id2 st1 uid data2 =
          (Inl (HTTPException 409
             (''Review by user '' @ uid @ '' for movie '' @ film_id data @ '' already exist'')),
           st1)"
    unfolding add_def check_if_review_exist_def find_one_def Let_def fid
    by (simp add: nofault found truthy_Some_raw CONFLICT_def)
  with count show ?thesis
    by simp
qed

theorem add_twice_conflict_witness:
  "add no_fault (oid_of 11) st_abc ''u3'' review_in = (Inr (Some (raw doc_d)), st_abcd)
   \<and> add no_fault (oid_of 12) st_abcd ''u3'' \<lparr>film_id = ''f1'', content = [(''text'', VStr ''bad'')]\<rparr>
       = (Inl (HTTPException 409 ''Review by user u3 for movie f1 already exist''), st_abcd)"
  using add_twice_conflict [OF add_example,
      of "\<lparr>film_id = ''f1'', content = [(''text'', VStr ''bad'')]\<rparr>" no_fault "oid_of 12"]
    add_example
  by (simp add: no_fault_def review_in_def)

text \<open>
  C7. When \<open>add\<close> succeeds, what it returns is the document just inserted, as a read by
  the generated identifier finds it in the collection: the identifier, the film and the
  content fields of the input, and the user. The collection is the old one with that
  document at its end, and nothing is logged.
\<close>

theorem add_returns_inserted:
  assumes "add env new_id st uid data = (Inr r, st')"
  shows "r = Some ((Key_id, VOid new_id) # (Key_field Film_id, VStr (film_id data))
                # (Key_field User_id, VStr uid)
                # map (\<lambda>(k, v). (Key_field (Content k), v)) (content data))
         \<and> find_one None (reviews st') [(Key_id, VOid new_id)] = Inr r
         \<and> reviews st' = reviews st @
              [\<lparr>doc_id = new_id,
                doc_fields = (Film_id, VStr (film_id data)) # (User_id, VStr uid)
                   # map (\<lambda>(k, v). (Content k, v)) (content data)\<rparr>]
         \<and> logged st' = logged st"
proof -
  from add_success [OF assms]
  have fresh: "new_id \<notin> doc_id ` set (reviews st)"
    and st': "st' = st\<lparr>reviews := reviews st @
                [\<lparr>doc_id = new_id, doc_fields = model_dump (mk_Review data uid)\<rparr>]\<rparr>"
    and r: "r = Some (raw \<lparr>doc_id = new_id, doc_fields = model_dump (mk_Review data uid)\<rparr>)"
    by simp_all
  have dump: "model_dump (mk_Review data uid) =
      (Film_id, VStr (film_id data)) # (User_id, VStr uid)
        # map (\<lambda>(k, v). (Content k, v)) (content data)"
    by (simp add: model_dump_def mk_Review_def)
  show ?thesis
    using fresh by (simp add: st' r dump find_one_def find_new_id raw_def split_def comp_def)
qed

theorem add_returns_inserted_witness:
  "add no_fault (oid_of 11) st_abc ''u3'' review_in = (Inr (Some (raw doc_d)), st_abcd)
   \<and> find_one None (reviews st_abcd) [(Key_id, VOid (oid_of 11))] = Inr (Some (raw doc_d))
   \<and> raw doc_d = [(Key_id, VOid (oid_of 11)), (Key_field Film_id, VStr ''f1''),
        (Key_field User_id, VStr ''u3''), (Key_field (Content ''text''), VStr ''great'')]"
  using add_returns_inserted [OF add_example] add_example
  by (simp add: example_defs raw_def find_one_def matches_def)

text \<open>The unique index on the identifier is kept by \<open>add\<close>.\<close>

lemma add_keeps_distinct:
  "add env new_id st uid data = (r, st') \<Longrightarrow> distinct (map doc_id (reviews st)) \<Longrightarrow>
   distinct (map doc_id (reviews st'))"
  unfolding add_def check_if_review_exist_def find_one_def insert_one_def Let_def
    ugc_logger_error_def
  by (auto split: option.splits if_splits sum.splits)

subsection \<open>Updating a review\<close>

lemma set_field_noop: "map_of fs f = Some v \<Longrightarrow> set_field f v fs = fs"
  by (induction fs) (auto split: if_splits)

lemma set_key_noop: "map_of (raw d) k = Some v \<Longrightarrow> set_key d (k, v) = Inr d"
  by (cases k) (simp_all add: map_of_raw_id map_of_raw_field set_field_noop)

lemma apply_set_noop:
  "\<forall>(k, v) \<in> set upd. map_of (raw d) k = Some v \<Longrightarrow> apply_set d upd = Inr d"
  by (induction upd) (auto simp: set_key_noop)

lemma update_first_noop:
  "find (matches flt) coll = Some d \<Longrightarrow> apply_set d upd = Inr d \<Longrightarrow>
   update_first flt upd coll = Inr (coll, 0)"
  by (induction coll) (auto split: if_splits)

lemma set_key_id: "set_key d kv = Inr d' \<Longrightarrow> doc_id d' = doc_id d"
  by (cases "(d, kv)" rule: set_key.cases) (auto split: if_splits)

lemma apply_set_id: "apply_set d upd = Inr d' \<Longrightarrow> doc_id d' = doc_id d"
  by (induction upd arbitrary: d) (auto split: sum.splits dest: set_key_id)

lemma set_key_error: "set_key d kv = Inl exc \<Longrightarrow> exc = WriteError"
  by (cases "(d, kv)" rule: set_key.cases) (auto split: if_splits)

text \<open>An update that names \<^verbatim>\<open>_id\<close> with a value that is not the identifier is refused.\<close>

lemma apply_set_refused:
  "(Key_id, v) \<in> set upd \<Longrightarrow> v \<noteq> VOid (doc_id d) \<Longrightarrow> apply_set d upd = Inl WriteError"
proof (induction upd arbitrary: d)
  case Nil
  then show ?case by simp
next
  case (Cons kv kvs)
  show ?case
  proof (cases "set_key d kv")
    case (Inl exc)
    with set_key_error [OF Inl] show ?thesis
      by simp
  next
    case (Inr d')
    from set_key_id [OF Inr] have same: "doc_id d' = doc_id d" .
    from Inr Cons.prems have "kv \<noteq> (Key_id, v)"
      by auto
    with Cons.prems have "(Key_id, v) \<in> set kvs"
      by simp
    from Cons.IH [OF this] Cons.prems(2) same have "apply_set d' kvs = Inl WriteError"
      by simp
    with Inr show ?thesis
      by simp
  qed
qed

lemma update_first_error:
  "find (matches flt) coll = Some d \<Longrightarrow> apply_set d upd = Inl exc \<Longrightarrow>
   update_first flt upd coll = Inl exc"
  by (induction coll) (auto split: if_splits)

lemma find_by_id: "find (matches [(Key_id, VOid i)]) coll = find (\<lambda>d. doc_id d = i) coll"
proof -
  have "matches [(Key_id, VOid i)] = (\<lambda>d. doc_id d = i)"
    by (rule ext) (simp add: matches_id)
  then show ?thesis
    by simp
qed

lemma find_Some_id: "find (\<lambda>d. doc_id d = i) coll = Some d \<Longrightarrow> doc_id d = i"
  by (induction coll) (auto split: if_splits)

text \<open>
  C4, as the claim has it, fails. The collection holds the review \<open>doc_a\<close>, and
  \<open>review_a\<close> is that review as a \<^verbatim>\<open>ReviewFromDB\<close>: the same fields, and the
  identifier in its string form. Encoded with the identifier under \<^verbatim>\<open>_id\<close>, the
  update is refused with a write error, the stored \<^verbatim>\<open>_id\<close> being an ObjectId and
  not a string; encoded with it under \<^verbatim>\<open>id\<close>, the update adds that field and
  \<open>update\<close> returns the changed document. Neither ends with \<^verbatim>\<open>None\<close> and the state
  as it was.
\<close>

theorem update_identical_not_noop:
  "jsonable_encoder Key_id review_a
     = (Key_id, VStr ''000000000000000000000005'') # tl (raw doc_a)
   \<and> ObjectId (id_str review_a) = Inr (doc_id doc_a)
   \<and> update no_fault st_abc ''000000000000000000000005'' (jsonable_encoder Key_id review_a)
       = (Inl WriteError, st_abc)
   \<and> update no_fault st_abc ''000000000000000000000005''
         (jsonable_encoder (Key_field (Content ''id'')) review_a)
       = (Inr (Some (raw doc_a_with_id)), st_abc_with_id)"
  by (simp add: jsonable_encoder_def review_a_def oid_5 update_def find_one_def
      update_one_def no_fault_def st_abc_def st_abc_with_id_def doc_a_def doc_a_with_id_def
      doc_b_def doc_c_def matches_def raw_def truthy_def)

text \<open>
  C4, amended. For a well-formed identifier of a stored review and the database layer
  answering the lookup and the update: when every field the encoded data name is a
  field of the review, not \<^verbatim>\<open>_id\<close>, and already has the value given, \<open>update\<close>
  returns \<^verbatim>\<open>None\<close> (neither the document nor the failure 404) and leaves the state
  as it was; when the encoded data carry a string under \<^verbatim>\<open>_id\<close>, the update is
  refused with a write error, which reaches the caller, and the state is as it was.
\<close>

theorem update_noop_or_refused:
  assumes "ObjectId review_id = Inr i"
    and "find (\<lambda>d. doc_id d = i) (reviews st) = Some d"
    and "env 0 = None" and "env 1 = None"
  shows "((\<forall>(k, v) \<in> set review_data.
             \<exists>f. k = Key_field f \<and> map_of (doc_fields d) f = Some v) \<longrightarrow>
            update env st review_id review_data = (Inr None, st))
       \<and> ((\<exists>s. (Key_id, VStr s) \<in> set review_data) \<longrightarrow>
            update env st review_id review_data = (Inl WriteError, st))"
proof (intro conjI impI)
  from assms(2) have found: "find (matches [(Key_id, VOid i)]) (reviews st) = Some d"
    by (simp add: find_by_id)
  {
    assume same: "\<forall>(k, v) \<in> set review_data.
        \<exists>f. k = Key_field f \<and> map_of (doc_fields d) f = Some v"
    then have "\<forall>(k, v) \<in> set review_data. map_of (raw d) k = Some v"
      by (auto simp: map_of_raw_field)
    then have "apply_set d review_data = Inr d"
      by (rule apply_set_noop)
    with found
    have "update_first [(Key_id, VOid i)] review_data (reviews st) = Inr (reviews st, 0)"
      by (rule update_first_noop)
    then show "update env st review_id review_data = (Inr None, st)"
      using assms(3,4)
      by (simp add: update_def assms(1) find_one_def found truthy_Some_raw update_one_def)
  }
  {
    assume "\<exists>s. (Key_id, VStr s) \<in> set review_data"
    then obtain s where "(Key_id, VStr s) \<in> set review_data"
      by blast
    then have "apply_set d review_data = Inl WriteError"
      by (rule apply_set_refused) simp
    with found
    have "update_first [(Key_id, VOid i)] review_data (reviews st) = Inl WriteError"
      by (rule update_first_error)
    then show "update env st review_id review_data = (Inl WriteError, st)"
      using assms(3,4)
      by (simp add: update_def assms(1) find_one_def found truthy_Some_raw update_one_def)
  }
qed

theorem update_noop_or_refused_witness:
  "update no_fault st_abc_with_id ''000000000000000000000005''
      (jsonable_encoder (Key_field (Content ''id'')) review_a)
     = (Inr None, st_abc_with_id)
   \<and> update no_fault st_abc ''000000000000000000000005'' (jsonable_encoder Key_id review_a)
     = (Inl WriteError, st_abc)"
  using update_noop_or_refused
      [of "''000000000000000000000005''" "oid_of 5" st_abc_with_id doc_a_with_id no_fault
          "jsonable_encoder (Key_field (Content ''id'')) review_a"]
    update_noop_or_refused
      [of "''000000000000000000000005''" "oid_of 5" st_abc doc_a no_fault
          "jsonable_encoder Key_id review_a"]
  by (simp add: oid_5 no_fault_def st_abc_def st_abc_with_id_def doc_a_def doc_a_with_id_def
      doc_b_def doc_c_def jsonable_encoder_def review_a_def)

text \<open>
  C5, as the claim has it, fails: the string \<^verbatim>\<open>abc\<close> matches no stored document, and
  \<open>update\<close> ends with \<open>InvalidId\<close>, raised by \<^verbatim>\<open>ObjectId(review_id)\<close> before the
  lookup, not with the status 404.
\<close>

theorem update_malformed_not_404:
  "update no_fault st_abc ''abc'' (jsonable_encoder Key_id review_a)
     = (Inl (InvalidId ''abc''), st_abc)
   \<and> \<not> is_not_found (fst (update no_fault st_abc ''abc'' (jsonable_encoder Key_id review_a)))"
  by (simp add: update_def ObjectId_def is_not_found_def)

text \<open>
  C5, amended. For a \<open>review_id\<close> no stored document has, the state is left as it was:
  when the string is a well-formed identifier and the database layer answers the
  lookup, \<open>update\<close> fails with status 404 and a detail naming the identifier as it was
  given; when \<^verbatim>\<open>ObjectId\<close> refuses the string, \<open>update\<close> ends with \<open>InvalidId\<close> of
  that string.
\<close>

theorem update_absent_or_malformed:
  "((\<forall>i. ObjectId review_id \<noteq> Inr i) \<longrightarrow>
       update env st review_id review_data = (Inl (InvalidId review_id), st))
   \<and> (\<forall>i. ObjectId review_id = Inr i \<and> i \<notin> doc_id ` set (reviews st) \<and> env 0 = None \<longrightarrow>
       update env st review_id review_data =
         (Inl (HTTPException 404 (''Not found review '' @ review_id @ '' for update'')), st))"
proof (intro conjI impI allI)
  assume "\<forall>i. ObjectId review_id \<noteq> Inr i"
  with ObjectId_cases [of review_id] have "ObjectId review_id = Inl (InvalidId review_id)"
    by blast
  then show "update env st review_id review_data = (Inl (InvalidId review_id), st)"
    by (simp add: update_def)
next
  fix i
  assume h: "ObjectId review_id = Inr i \<and> i \<notin> doc_id ` set (reviews st) \<and> env 0 = None"
  then have "find (matches [(Key_id, VOid i)]) (reviews st) = None"
    by (simp add: find_id_None)
  with h show "update env st review_id review_data =
      (Inl (HTTPException 404 (''Not found review '' @ review_id @ '' for update'')), st)"
    by (simp add: update_def find_one_def truthy_def NOT_FOUND_def)
qed

theorem update_absent_or_malformed_witness:
  "update no_fault st_abc ''review-1'' [(Key_field Film_id, VStr ''f9'')]
     = (Inl (InvalidId ''review-1''), st_abc)
   \<and> update no_fault st_abc ''00000000000000000000000f'' [(Key_field Film_id, VStr ''f9'')]
     = (Inl (HTTPException 404 ''Not found review 00000000000000000000000f for update''),
        st_abc)"
proof -
  have bad: "\<forall>i. ObjectId ''review-1'' \<noteq> Inr i"
    by (simp add: ObjectId_def)
  have absent: "ObjectId ''00000000000000000000000f'' = Inr (oid_of 15)
      \<and> oid_of 15 \<notin> doc_id ` set (reviews st_abc) \<and> no_fault 0 = None"
    by (simp add: oid_f no_fault_def st_abc_def doc_a_def doc_b_def doc_c_def)
  from update_absent_or_malformed
    [of "''review-1''" no_fault st_abc "[(Key_field Film_id, VStr ''f9'')]"] bad
  have 1: "update no_fault st_abc ''review-1'' [(Key_field Film_id, VStr ''f9'')]
     = (Inl (InvalidId ''review-1''), st_abc)"
    by blast
  from update_absent_or_malformed
    [of "''00000000000000000000000f''" no_fault st_abc "[(Key_field Film_id, VStr ''f9'')]"]
    absent
  have 2: "update no_fault st_abc ''00000000000000000000000f'' [(Key_field Film_id, VStr ''f9'')]
     = (Inl (HTTPException 404 ''Not found review 00000000000000000000000f for update''),
        st_abc)"
    by auto
  from 1 2 show ?thesis
    by simp
qed

lemma update_first_frame:
  "update_first [(Key_id, VOid i)] upd coll = Inr (coll', n) \<Longrightarrow>
   map doc_id coll' = map doc_id coll \<and>
   (\<forall>k < length coll. doc_id (coll ! k) \<noteq> i \<longrightarrow> coll' ! k = coll ! k)"
proof (induction coll arbitrary: coll' n)
  case Nil
  then show ?case by simp
next
  case (Cons d ds)
  show ?case
  proof (cases "doc_id d = i")
    case True
    with Cons.prems obtain d' where d': "apply_set d upd = Inr d'" "coll' = d' # ds"
      by (auto simp: matches_id split: sum.splits)
    from apply_set_id [OF d'(1)] True d'(2) show ?thesis
      by (auto simp: nth_Cons split: nat.splits)
  next
    case False
    with Cons.prems obtain ds'
      where ds': "update_first [(Key_id, VOid i)] upd ds = Inr (ds', n)" "coll' = d # ds'"
      by (auto simp: matches_id split: sum.splits)
    from Cons.IH [OF ds'(1)] ds'(2) show ?thesis
      by (auto simp: nth_Cons split: nat.splits)
  qed
qed

text \<open>
  C10. Whatever \<open>update\<close> is given and however it ends, the identifiers of the
  collection are afterwards what they were, position by position, and every document
  whose identifier is not the one \<open>review_id\<close> spells is untouched; a malformed
  \<open>review_id\<close> leaves the whole state as it was. The data are arbitrary here, so an
  identifier they carry neither picks the document nor replaces its identifier.
\<close>

theorem update_frame:
  assumes "update env st review_id review_data = (r, st')"
  shows "map doc_id (reviews st') = map doc_id (reviews st)
         \<and> logged st' = logged st
         \<and> (\<forall>i. ObjectId review_id = Inr i \<longrightarrow>
               (\<forall>k < length (reviews st). doc_id (reviews st ! k) \<noteq> i \<longrightarrow>
                  reviews st' ! k = reviews st ! k))
         \<and> ((\<forall>i. ObjectId review_id \<noteq> Inr i) \<longrightarrow> st' = st)"
proof (cases "ObjectId review_id")
  case (Inl exc)
  with assms show ?thesis
    by (simp add: update_def)
next
  case (Inr i)
  have map_id: "map (\<lambda>(k, v). (k, v)) review_data = review_data"
    by (induction review_data) auto
  show ?thesis
  proof (cases "update_first [(Key_id, VOid i)] review_data (reviews st)")
    case (Inl exc)
    with assms Inr have "st' = st"
      by (auto simp: update_def update_one_def find_one_def map_id
          split: option.splits if_splits sum.splits)
    with Inr show ?thesis
      by simp
  next
    case upd: (Inr res)
    obtain coll' n where res: "res = (coll', n)"
      by (cases res)
    from assms Inr upd res have "st' = st \<or> st' = st\<lparr>reviews := coll'\<rparr>"
      by (auto simp: update_def update_one_def find_one_def map_id
          split: option.splits if_splits sum.splits)
    with update_first_frame [OF upd [unfolded res]] Inr show ?thesis
      by auto
  qed
qed

theorem update_frame_witness:
  "map doc_id (reviews (snd (update no_fault st_abc ''000000000000000000000005''
      [(Key_id, VOid (oid_of 5)), (Key_field (Content ''text''), VStr ''changed'')]))) = [oid_of 5, oid_of 2, oid_of 9]
   \<and> reviews (snd (update no_fault st_abc ''000000000000000000000005''
      [(Key_id, VOid (oid_of 5)), (Key_field (Content ''text''), VStr ''changed'')])) ! 1 = doc_b"
proof -
  let ?u = "update no_fault st_abc ''000000000000000000000005''
      [(Key_id, VOid (oid_of 5)), (Key_field (Content ''text''), VStr ''changed'')]"
  have "?u = (fst ?u, snd ?u)"
    by simp
  from update_frame [OF this]
  have ids: "map doc_id (reviews (snd ?u)) = map doc_id (reviews st_abc)"
    and others: "\<forall>k < length (reviews st_abc). doc_id (reviews st_abc ! k) \<noteq> oid_of 5 \<longrightarrow>
                   reviews (snd ?u) ! k = reviews st_abc ! k"
    by (simp_all add: oid_5)
  from others have "reviews (snd ?u) ! 1 = reviews st_abc ! 1"
    by (simp add: st_abc_def doc_b_def)
  with ids show ?thesis
    by (simp add: st_abc_def doc_a_def doc_b_def doc_c_def)
qed

text \<open>The unique index on the identifier is kept by \<open>update\<close>.\<close>

lemma update_keeps_distinct:
  assumes "update env st review_id review_data = (r, st')"
    and "distinct (map doc_id (reviews st))"
  shows "distinct (map doc_id (reviews st'))"
proof (cases "ObjectId review_id")
  case (Inl exc)
  with assms show ?thesis
    by (simp add: update_def)
next
  case (Inr i)
  have map_id: "map (\<lambda>(k, v). (k, v)) review_data = review_data"
    by (induction review_data) auto
  show ?thesis
  proof (cases "update_first [(Key_id, VOid i)] review_data (reviews st)")
    case (Inl exc)
    with assms Inr show ?thesis
      by (auto simp: update_def update_one_def find_one_def map_id
          split: option.splits if_splits sum.splits)
  next
    case upd: (Inr res)
    obtain coll' n where res: "res = (coll', n)"
      by (cases res)
    from assms(1) Inr upd res have "st' = st \<or> st' = st\<lparr>reviews := coll'\<rparr>"
      by (auto simp: update_def update_one_def find_one_def map_id
          split: option.splits if_splits sum.splits)
    with update_first_frame [OF upd [unfolded res]] assms(2) show ?thesis
      by auto
  qed
qed

text \<open>Two runs of \<open>update\<close> on data that carry an identifier: its own, and that of another.\<close>

lemma update_example:
  "update no_fault st_abc ''000000000000000000000005''
      [(Key_id, VOid (oid_of 5)), (Key_field (Content ''text''), VStr ''changed'')]
   = (Inr (Some [(Key_id, VOid (oid_of 5)), (Key_field Film_id, VStr ''f1''),
                 (Key_field User_id, VStr ''u1''),
                 (Key_field (Content ''text''), VStr ''changed'')]),
      \<lparr>reviews = [doc_a\<lparr>doc_fields := [(Film_id, VStr ''f1''), (User_id, VStr ''u1''),
                                      (Content ''text'', VStr ''changed'')]\<rparr>, doc_b, doc_c],
        logged = []\<rparr>)"
  by (simp add: update_def oid_5 find_one_def update_one_def no_fault_def st_abc_def
      doc_a_def doc_b_def doc_c_def matches_def raw_def truthy_def)

lemma update_rekey_refused:
  "update no_fault st_abc ''000000000000000000000005''
      [(Key_id, VOid (oid_of 9)), (Key_field (Content ''text''), VStr ''changed'')]
   = (Inl WriteError, st_abc)"
  by (simp add: update_def oid_5 find_one_def update_one_def no_fault_def st_abc_def
      doc_a_def doc_b_def doc_c_def matches_def raw_def truthy_def)

subsection \<open>Removing a review\<close>

lemma delete_first_absent:
  "i \<notin> doc_id ` set coll \<Longrightarrow> delete_first [(Key_id, VOid i)] coll = (coll, 0)"
  by (induction coll) (auto simp: matches_id)

lemma filter_other_ids:
  "i \<notin> doc_id ` set coll \<Longrightarrow> filter (\<lambda>d. doc_id d \<noteq> i) coll = coll"
  by (induction coll) auto

lemma delete_first_present:
  "i \<in> doc_id ` set coll \<Longrightarrow> distinct (map doc_id coll) \<Longrightarrow>
   delete_first [(Key_id, VOid i)] coll = (filter (\<lambda>d. doc_id d \<noteq> i) coll, 1)"
proof (induction coll)
  case Nil
  then show ?case by simp
next
  case (Cons d ds)
  show ?case
  proof (cases "doc_id d = i")
    case True
    with Cons.prems(2) have "i \<notin> doc_id ` set ds"
      by auto
    with True show ?thesis
      by (simp add: matches_id filter_other_ids)
  next
    case False
    with Cons show ?thesis
      by (auto simp: matches_id)
  qed
qed

lemma length_filter_other_ids:
  "i \<in> doc_id ` set coll \<Longrightarrow> distinct (map doc_id coll) \<Longrightarrow>
   length (filter (\<lambda>d. doc_id d \<noteq> i) coll) + 1 = length coll"
proof (induction coll)
  case Nil
  then show ?case by simp
next
  case (Cons d ds)
  show ?case
  proof (cases "doc_id d = i")
    case True
    with Cons.prems(2) have "i \<notin> doc_id ` set ds"
      by auto
    with True show ?thesis
      by (simp add: filter_other_ids)
  next
    case False
    with Cons show ?thesis
      by auto
  qed
qed

lemma remove_absent:
  assumes "ObjectId review_id = Inr i" and "env 0 = None"
    and "i \<notin> doc_id ` set (reviews st)"
  shows "remove env st review_id =
           (Inl (HTTPException 404 (''Not found review '' @ review_id @ '' for deletion'')), st)"
  using assms by (simp add: remove_def delete_one_def delete_first_absent NOT_FOUND_def)


text \<open>
  C6, as the claim has it, fails: the string \<^verbatim>\<open>no-such-review\<close> matches no stored
  document, and \<open>remove\<close> ends with \<open>InvalidId\<close>, raised by
  \<^verbatim>\<open>ObjectId(review_id)\<close> before the delete, not with the status 404.
\<close>

theorem remove_not_an_id_not_404:
  "remove no_fault st_empty ''no-such-review''
     = (Inl (InvalidId ''no-such-review''), st_empty)
   \<and> \<not> is_not_found (fst (remove no_fault st_empty ''no-such-review''))"
  by (simp add: remove_def ObjectId_def is_not_found_def)

text \<open>
  C6, amended. For a well-formed identifier and a delete the database layer answers:
  when no stored document has the identifier, \<open>remove\<close> fails with status 404 and a
  detail naming the identifier as given, and the state is as it was; when a document
  has it (identifiers being unique in the collection), \<open>remove\<close> succeeds, the
  collection is the old one without that document, one document shorter, every other
  document in its place and unchanged, and a read by the identifier then finds nothing.
\<close>

theorem remove_absent_or_present:
  assumes "ObjectId review_id = Inr i" and "env 0 = None"
  shows "(i \<notin> doc_id ` set (reviews st) \<longrightarrow>
            remove env st review_id =
              (Inl (HTTPException 404 (''Not found review '' @ review_id @ '' for deletion'')),
               st))
       \<and> (i \<in> doc_id ` set (reviews st) \<and> distinct (map doc_id (reviews st)) \<longrightarrow>
            remove env st review_id =
              (Inr (), st\<lparr>reviews := filter (\<lambda>d. doc_id d \<noteq> i) (reviews st)\<rparr>)
            \<and> length (filter (\<lambda>d. doc_id d \<noteq> i) (reviews st)) + 1 = length (reviews st)
            \<and> find_one None (filter (\<lambda>d. doc_id d \<noteq> i) (reviews st)) [(Key_id, VOid i)]
                = Inr None)"
proof (intro conjI impI)
  assume "i \<notin> doc_id ` set (reviews st)"
  with assms show "remove env st review_id =
      (Inl (HTTPException 404 (''Not found review '' @ review_id @ '' for deletion'')), st)"
    by (rule remove_absent)
next
  assume h: "i \<in> doc_id ` set (reviews st) \<and> distinct (map doc_id (reviews st))"
  then show "remove env st review_id =
      (Inr (), st\<lparr>reviews := filter (\<lambda>d. doc_id d \<noteq> i) (reviews st)\<rparr>)"
    using assms by (simp add: remove_def delete_one_def delete_first_present)
  from h show "length (filter (\<lambda>d. doc_id d \<noteq> i) (reviews st)) + 1 = length (reviews st)"
    using length_filter_other_ids [of i "reviews st"] by simp
  show "find_one None (filter (\<lambda>d. doc_id d \<noteq> i) (reviews st)) [(Key_id, VOid i)] = Inr None"
    by (auto simp: find_one_def find_id_None)
qed

theorem remove_absent_or_present_witness:
  "remove no_fault st_abc ''00000000000000000000000f''
     = (Inl (HTTPException 404 ''Not found review 00000000000000000000000f for deletion''),
        st_abc)
   \<and> remove no_fault st_abc ''000000000000000000000005''
     = (Inr (), \<lparr>reviews = [doc_b, doc_c], logged = []\<rparr>)
   \<and> find_one None [doc_b, doc_c] [(Key_id, VOid (oid_of 5))] = Inr None"
  using remove_absent_or_present [of "''00000000000000000000000f''" "oid_of 15" no_fault st_abc]
    remove_absent_or_present [of "''000000000000000000000005''" "oid_of 5" no_fault st_abc]
  by (simp add: oid_5 oid_f no_fault_def st_abc_def doc_a_def doc_b_def doc_c_def)




text \<open>A string of 24 characters with whitespace is accepted, and the delete finds nothing.\<close>

lemma remove_whitespace_id:
  "remove no_fault st_abc ''0000000000000000000005  ''
     = (Inl (HTTPException 404 ''Not found review 0000000000000000000005   for deletion''),
        st_abc)"
  by (simp add: remove_def oid_short delete_one_def no_fault_def st_abc_def
      doc_a_def doc_b_def doc_c_def oid_of_def matches_def raw_def NOT_FOUND_def)

text \<open>The unique index on the identifier is kept by \<open>remove\<close>.\<close>

lemma delete_first_ids:
  "delete_first flt coll = (coll', n) \<Longrightarrow> distinct (map doc_id coll) \<Longrightarrow>
   distinct (map doc_id coll') \<and> set coll' \<subseteq> set coll"
proof (induction coll arbitrary: coll' n)
  case Nil
  then show ?case by simp
next
  case (Cons d ds)
  show ?case
  proof (cases "matches flt d")
    case True
    with Cons.prems show ?thesis
      by auto
  next
    case False
    with Cons.prems obtain ds' where ds': "delete_first flt ds = (ds', n)" "coll' = d # ds'"
      by (auto split: prod.splits)
    from Cons.IH [OF ds'(1)] Cons.prems(2) ds'(2) show ?thesis
      by auto
  qed
qed

lemma remove_keeps_distinct:
  assumes "remove env st review_id = (r, st')" and "distinct (map doc_id (reviews st))"
  shows "distinct (map doc_id (reviews st'))"
proof (cases "ObjectId review_id")
  case (Inl exc)
  with assms show ?thesis
    by (simp add: remove_def)
next
  case (Inr i)
  obtain coll' n where del: "delete_first [(Key_id, VOid i)] (reviews st) = (coll', n)"
    by (cases "delete_first [(Key_id, VOid i)] (reviews st)")
  from assms(1) Inr del have "st' = st \<or> st' = st\<lparr>reviews := coll'\<rparr>"
    by (auto simp: remove_def delete_one_def split: option.splits if_splits)
  with delete_first_ids [OF del assms(2)] assms(2) show ?thesis
    by auto
qed

end
